theory Spec2Isabelle
  imports Main "HOL-Library.Sublist"
begin

text \<open>
  A model of the M5Docs helper, an editor extension for a documentation tree
  \<open><root>/<staticDir>/<lang>/<relative path>.md\<close> (\<open>src/extension.ts\<close>): it resolves the
  language and relative path of a file, builds the path of the same document in another
  language, builds and parses the document's URL, replaces a loopback host of the preview
  base by an address of the local network, and picks the workspace folder that holds the
  documents. Each function of the source is a definition of the same name; what it takes
  from the editor, the operating system or the platform is an argument.
\<close>

section \<open>Strings and arrays of the host language\<close>

text \<open>
  The extension is written in TypeScript. A string is modelled as a \<open>string\<close> (a list of
  characters), an array as a list. The operations of the JavaScript standard library that
  the extension calls are written out here with the results they give there: an index that
  is not found is \<open>-1\<close>, a read outside an array is \<open>undefined\<close> (here \<open>None\<close>).
\<close>

abbreviation slash :: char where
  "slash \<equiv> CHR ''/''"

abbreviation backslash :: char where
  "backslash \<equiv> CHR 0x5C"

text \<open>\<open>s.split(c)\<close> for a one-character separator: never empty, \<open>''''.split(c) = ['''']\<close>.\<close>

fun str_split :: "char \<Rightarrow> string \<Rightarrow> string list" where
  "str_split c [] = [[]]"
| "str_split c (x # xs) =
     (if x = c then [] # str_split c xs
      else (case str_split c xs of
              [] \<Rightarrow> [[x]]
            | y # ys \<Rightarrow> (x # y) # ys))"

text \<open>\<open>a.join(sep)\<close>.\<close>

fun arr_join :: "string \<Rightarrow> string list \<Rightarrow> string" where
  "arr_join sep [] = []"
| "arr_join sep [x] = x"
| "arr_join sep (x # y # ys) = x @ sep @ arr_join sep (y # ys)"

text \<open>\<open>a.lastIndexOf(x)\<close> on an array: the greatest index holding \<open>x\<close>, or \<open>-1\<close>.\<close>

fun arr_lastIndexOf :: "'a list \<Rightarrow> 'a \<Rightarrow> int" where
  "arr_lastIndexOf [] x = -1"
| "arr_lastIndexOf (y # ys) x =
     (let r = arr_lastIndexOf ys x
      in if 0 \<le> r then r + 1 else if y = x then 0 else -1)"

text \<open>\<open>a[i]\<close>: \<open>undefined\<close> outside the array.\<close>

definition arr_at :: "'a list \<Rightarrow> int \<Rightarrow> 'a option" where
  "arr_at xs i = (if 0 \<le> i \<and> i < int (length xs) then Some (xs ! nat i) else None)"

text \<open>\<open>a.includes(x)\<close>, where \<open>x\<close> may be \<open>undefined\<close>; the arrays here hold strings only.\<close>

definition arr_includes :: "'a list \<Rightarrow> 'a option \<Rightarrow> bool" where
  "arr_includes xs x = (case x of None \<Rightarrow> False | Some v \<Rightarrow> v \<in> set xs)"

text \<open>\<open>s.lastIndexOf(needle)\<close> on a string: the greatest start of an occurrence, or \<open>-1\<close>.\<close>

fun str_lastIndexOf :: "string \<Rightarrow> string \<Rightarrow> int" where
  "str_lastIndexOf [] needle = (if needle = [] then 0 else -1)"
| "str_lastIndexOf (c # cs) needle =
     (let r = str_lastIndexOf cs needle
      in if 0 \<le> r then r + 1 else if prefix needle (c # cs) then 0 else -1)"

text \<open>\<open>s.slice(0, n)\<close>: a negative \<open>n\<close> counts from the end of the string.\<close>

definition str_slice0 :: "string \<Rightarrow> int \<Rightarrow> string" where
  "str_slice0 s n = take (nat (if n < 0 then int (length s) + n else n)) s"

text \<open>\<open>s.replace(/\/+$/, '')\<close> and \<open>s.replace(/^\/+/, '')\<close>.\<close>

definition strip_trailing_slashes :: "string \<Rightarrow> string" where
  "strip_trailing_slashes s = rev (dropWhile (\<lambda>c. c = slash) (rev s))"


text \<open>\<open>s.replace(/\/README$/, '')\<close>: the pattern is anchored at the end of the string.\<close>

definition strip_trailing_README :: "string \<Rightarrow> string" where
  "strip_trailing_README s =
     (if suffix ''/README'' s then take (length s - length ''/README'') s else s)"

text \<open>
  \<open>path.posix.extname\<close> of Node.js, a library function: the extension of the last
  component of a path, from its last dot. Trailing slashes are skipped; the result is empty
  when the component has no dot, when its only dot is its first character, and for \<open>..\<close>.
\<close>

definition extname :: "string \<Rightarrow> string" where
  "extname p =
     (let trimmed = strip_trailing_slashes p;
          base = rev (takeWhile (\<lambda>c. c \<noteq> slash) (rev trimmed));
          ext = rev (takeWhile (\<lambda>c. c \<noteq> CHR ''.'') (rev base));
          stem = take (length base - length ext - 1) base
      in if CHR ''.'' \<notin> set base \<or> stem = [] \<or> base = ''..'' then []
         else CHR ''.'' # ext)"

section \<open>Resolving a document path\<close>

record DocInfo =
  lang :: string
  relPathWithExt :: string
  relPathNoExt :: string
  staticDir :: string

text \<open>\<open>toPosix\<close>: every backslash becomes a forward slash.\<close>

definition toPosix :: "string \<Rightarrow> string" where
  "toPosix p = map (\<lambda>c. if c = backslash then slash else c) p"

text \<open>
  \<open>parseDocInfo\<close> takes the \<open>fsPath\<close> of the file. A failed resolution is \<open>null\<close> in the
  source and \<open>None\<close> here. When the static directory is the last segment,
  \<open>parts[staticIdx + 1]\<close> is \<open>undefined\<close>, which \<open>languages.includes\<close> does not find: the
  \<open>None\<close> branch of the \<open>case\<close>.
\<close>

definition parseDocInfo :: "string \<Rightarrow> string list \<Rightarrow> string \<Rightarrow> bool \<Rightarrow> DocInfo option" where
  "parseDocInfo fsPath languages sdir treatReadmeAsIndex =
     (let fsPathPosix = toPosix fsPath;
          parts = str_split slash fsPathPosix;
          staticIdx = arr_lastIndexOf parts sdir
      in if staticIdx < 0 then None
         else (case arr_at parts (staticIdx + 1) of
                 None \<Rightarrow> None
               | Some lng \<Rightarrow>
                   if \<not> arr_includes languages (Some lng) then None
                   else (let relParts = drop (nat (staticIdx + 2)) parts
                         in if length relParts = 0 then None
                            else (let rel = arr_join ''/'' relParts;
                                      ext = extname rel;
                                      noExt = str_slice0 rel (int (length rel) - int (length ext));
                                      rne = (if treatReadmeAsIndex \<and> suffix ''/README'' noExt
                                             then strip_trailing_README noExt else noExt)
                                  in Some \<lparr>lang = lng, relPathWithExt = rel,
                                           relPathNoExt = rne, staticDir = sdir\<rparr>))))"

section \<open>Building the sibling path\<close>

datatype error = RootNotFound | JoinPathTypeError

text \<open>
  \<open>buildTargetFileUri\<close> throws when the needle is not in the path. The result is the
  path that the source hands to \<open>vscode.Uri.file\<close>.
\<close>

definition needle_of :: "DocInfo \<Rightarrow> string" where
  "needle_of info = ''/'' @ staticDir info @ ''/'' @ lang info @ ''/'' @ relPathWithExt info"

definition buildTargetFileUri :: "string \<Rightarrow> string \<Rightarrow> DocInfo \<Rightarrow> error + string" where
  "buildTargetFileUri fsPath targetLang info =
     (let fsPathPosix = toPosix fsPath;
          needle = needle_of info;
          idx = str_lastIndexOf fsPathPosix needle
      in if idx < 0 then Inl RootNotFound
         else (let root = str_slice0 fsPathPosix idx
               in Inr (root @ ''/'' @ staticDir info @ ''/'' @ targetLang @ ''/''
                         @ relPathWithExt info)))"

section \<open>URLs\<close>

text \<open>
  The \<open>URL\<close> class of the platform is not part of the repository. A parsed URL is modelled
  by the record of the URL standard: scheme, credentials, host, port, path (serialised,
  as \<open>pathname\<close> reports it), query and fragment. The getters \<open>hostname\<close> and \<open>pathname\<close>
  and the serialiser \<open>toString\<close> (\<open>href\<close>) are those of the standard. The constructor
  \<open>new URL(s)\<close> is a parameter \<open>new_URL\<close> of every function that calls it: \<open>None\<close> stands
  for the \<open>TypeError\<close> it throws on a string that is not a valid URL.
\<close>

record url =
  url_scheme :: string
  url_username :: string
  url_password :: string
  url_host :: "string option"
  url_port :: "string option"
  url_path :: string
  url_query :: "string option"
  url_fragment :: "string option"

definition url_hostname :: "url \<Rightarrow> string" where
  "url_hostname u = (case url_host u of None \<Rightarrow> [] | Some h \<Rightarrow> h)"

definition url_pathname :: "url \<Rightarrow> string" where
  "url_pathname u = url_path u"

definition url_userinfo :: "url \<Rightarrow> string" where
  "url_userinfo u =
     (if url_username u = [] \<and> url_password u = [] then []
      else url_username u @ (if url_password u = [] then [] else '':'' @ url_password u) @ ''@'')"

definition url_port_part :: "url \<Rightarrow> string" where
  "url_port_part u = (case url_port u of None \<Rightarrow> [] | Some p \<Rightarrow> '':'' @ p)"

definition url_tail :: "url \<Rightarrow> string" where
  "url_tail u =
     url_path u @ (case url_query u of None \<Rightarrow> [] | Some q \<Rightarrow> ''?'' @ q)
       @ (case url_fragment u of None \<Rightarrow> [] | Some f \<Rightarrow> ''#'' @ f)"

definition url_toString :: "url \<Rightarrow> string" where
  "url_toString u =
     url_scheme u @ '':''
       @ (case url_host u of
            Some h \<Rightarrow> ''//'' @ url_userinfo u @ h @ url_port_part u
          | None \<Rightarrow> (if prefix ''//'' (url_path u) then ''/.'' else []))
       @ url_tail u"

text \<open>
  The \<open>hostname\<close> setter. The extension calls it on a URL that has a host, with an IPv4
  address as the operating system reports it, in dotted-decimal form (\<open>is_dotted_quad\<close>
  below); the standard then stores the address as the new host and changes nothing else.
\<close>

definition url_set_hostname :: "url \<Rightarrow> string \<Rightarrow> url" where
  "url_set_hostname u h = u\<lparr>url_host := Some h\<rparr>"

subsection \<open>The constructor on plain http and https URLs\<close>

text \<open>
  For the examples, the constructor is written out on the URLs
  \<open>http[s]://host[:port][/path]\<close> whose host is a lower-case domain name or a dotted-decimal
  IPv4 address, whose port has at most four digits and whose path needs no
  percent-encoding and has no dot segment. On such a
  string the standard leaves every component as it is written, but for an empty path,
  which becomes \<open>/\<close>, and a default port, which is dropped. \<open>URL_plain\<close> is \<open>None\<close> on every
  other string, so it says what the platform does only on those URLs and on strings that
  have no scheme at all.
\<close>

definition is_decimal :: "string \<Rightarrow> bool" where
  "is_decimal s \<longleftrightarrow> s \<noteq> [] \<and> list_all (\<lambda>c. c \<in> set ''0123456789'') s
     \<and> (length s = 1 \<or> hd s \<noteq> CHR ''0'')"

text \<open>A decimal number from 0 to 255, read off its digits.\<close>

definition is_octet :: "string \<Rightarrow> bool" where
  "is_octet s \<longleftrightarrow> is_decimal s \<and>
     (case s of
        [a, b, c] \<Rightarrow> a = CHR ''1''
          \<or> (a = CHR ''2'' \<and> (b \<in> set ''01234'' \<or> (b = CHR ''5'' \<and> c \<in> set ''012345'')))
      | _ \<Rightarrow> length s \<le> 2)"

text \<open>An IPv4 address in dotted-decimal form: four such numbers.\<close>

definition is_dotted_quad :: "string \<Rightarrow> bool" where
  "is_dotted_quad s \<longleftrightarrow>
     (let labels = str_split (CHR ''.'') s
      in length labels = 4 \<and> list_all is_octet labels)"

definition plain_host :: "string \<Rightarrow> bool" where
  "plain_host h \<longleftrightarrow>
     (let labels = str_split (CHR ''.'') h
      in list_all (\<lambda>l. l \<noteq> []
            \<and> list_all (\<lambda>c. c \<in> set ''abcdefghijklmnopqrstuvwxyz0123456789'') l) labels
         \<and> (hd (last labels) \<in> set ''abcdefghijklmnopqrstuvwxyz'' \<or> is_dotted_quad h))"

definition plain_path :: "string \<Rightarrow> bool" where
  "plain_path p \<longleftrightarrow>
     p = [] \<or>
     (hd p = slash
      \<and> list_all (\<lambda>c. c \<in> set
            ''ABCDEFGHIJKLMNOPQRSTUVWXYZabcdefghijklmnopqrstuvwxyz0123456789-._~/'') p
      \<and> list_all (\<lambda>s. s \<noteq> ''.'' \<and> s \<noteq> ''..'') (str_split slash p))"

text \<open>A port is taken when it has at most four digits; the default port is dropped.\<close>

definition plain_port :: "string \<Rightarrow> string \<Rightarrow> string option option" where
  "plain_port sch pt =
     (if pt = [] then Some None
      else if hd pt \<noteq> CHR '':'' \<or> \<not> is_decimal (tl pt) \<or> 4 < length (tl pt) then None
      else if (sch = ''http'' \<and> tl pt = ''80'') \<or> (sch = ''https'' \<and> tl pt = ''443'')
      then Some None
      else Some (Some (tl pt)))"

definition plain_rest :: "string \<Rightarrow> string \<Rightarrow> url option" where
  "plain_rest sch r =
     (let authority = takeWhile (\<lambda>c. c \<noteq> slash) r;
          pth = dropWhile (\<lambda>c. c \<noteq> slash) r;
          h = takeWhile (\<lambda>c. c \<noteq> CHR '':'') authority;
          pt = dropWhile (\<lambda>c. c \<noteq> CHR '':'') authority
      in if \<not> plain_host h \<or> \<not> plain_path pth then None
         else (case plain_port sch pt of
                 None \<Rightarrow> None
               | Some prt \<Rightarrow>
                   Some \<lparr>url_scheme = sch, url_username = [], url_password = [],
                         url_host = Some h, url_port = prt,
                         url_path = (if pth = [] then ''/'' else pth),
                         url_query = None, url_fragment = None\<rparr>))"

definition URL_plain :: "string \<Rightarrow> url option" where
  "URL_plain s =
     (if prefix ''http://'' s then plain_rest ''http'' (drop 7 s)
      else if prefix ''https://'' s then plain_rest ''https'' (drop 8 s)
      else None)"

subsection \<open>Building and parsing a document URL\<close>


text \<open>
  \<open>parseUrlToLangAndRel\<close>: the result \<open>{lang, relNoExt}\<close> is a pair, \<open>null\<close> is \<open>None\<close>; the
  \<open>catch\<close> branch is the case where the constructor throws.
\<close>

definition parseUrlToLangAndRel ::
  "(string \<Rightarrow> url option) \<Rightarrow> string \<Rightarrow> string list \<Rightarrow> (string \<times> string) option" where
  "parseUrlToLangAndRel new_URL urlStr languages =
     (case new_URL urlStr of
        None \<Rightarrow> None
      | Some u \<Rightarrow>
          (let segs = filter (\<lambda>s. s \<noteq> []) (str_split slash (url_pathname u))
           in if length segs < 2 then None
              else (case arr_at segs 0 of
                      None \<Rightarrow> None
                    | Some lng \<Rightarrow>
                        if \<not> arr_includes languages (Some lng) then None
                        else Some (lng, arr_join ''/'' (drop 1 segs)))))"

section \<open>The address on the local network\<close>

text \<open>
  \<open>os.networkInterfaces()\<close> is an object from interface names to arrays of addresses; it is
  modelled by the list of its entries in the order of \<open>Object.keys\<close>. The two nested loops
  are \<open>scan_ifs\<close> and \<open>scan_addrs\<close>; \<open>Inl ip\<close> is the \<open>return ip\<close> inside the inner loop.
\<close>

record NetworkInterfaceInfo =
  address :: string
  family :: string
  internal :: bool

fun scan_addrs :: "NetworkInterfaceInfo list \<Rightarrow> string list \<Rightarrow> string + string list" where
  "scan_addrs [] fallbacks = Inr fallbacks"
| "scan_addrs (addr # rest) fallbacks =
     (if family addr = ''IPv4'' \<and> \<not> internal addr then
        (let ip = address addr
         in if prefix ''192.168.'' ip then Inl ip
            else scan_addrs rest (fallbacks @ [ip]))
      else scan_addrs rest fallbacks)"

fun scan_ifs :: "(string \<times> NetworkInterfaceInfo list) list \<Rightarrow> string list \<Rightarrow> string option" where
  "scan_ifs [] fallbacks = arr_at fallbacks 0"
| "scan_ifs ((ifname, addrs) # rest) fallbacks =
     (case scan_addrs addrs fallbacks of
        Inl ip \<Rightarrow> Some ip
      | Inr fallbacks' \<Rightarrow> scan_ifs rest fallbacks')"

definition getLanIPv4Prefer192 :: "(string \<times> NetworkInterfaceInfo list) list \<Rightarrow> string option" where
  "getLanIPv4Prefer192 ifs = scan_ifs ifs []"

text \<open>
  The addresses the selection policy speaks of: every address that is IPv4 and not
  internal, in the order of enumeration.
\<close>

definition nonInternalIPv4 :: "(string \<times> NetworkInterfaceInfo list) list \<Rightarrow> string list" where
  "nonInternalIPv4 ifs =
     map address (filter (\<lambda>a. family a = ''IPv4'' \<and> \<not> internal a) (concat (map snd ifs)))"

text \<open>
  \<open>patchBaseHost\<close>: \<open>lan\<close> is \<open>string | null\<close>; the test \<open>lan && ...\<close> also fails on the empty
  string. The \<open>catch\<close> branch is the case where the constructor throws.
\<close>

definition patchBaseHost :: "(string \<Rightarrow> url option) \<Rightarrow> string \<Rightarrow> string option \<Rightarrow> string" where
  "patchBaseHost new_URL base lan =
     (case new_URL base of
        None \<Rightarrow> base
      | Some u \<Rightarrow>
          (let u' = (case lan of
                       None \<Rightarrow> u
                     | Some ip \<Rightarrow>
                         if ip \<noteq> [] \<and> (url_hostname u = ''127.0.0.1'' \<or> url_hostname u = ''localhost'')
                         then url_set_hostname u ip else u)
           in strip_trailing_slashes (url_toString u')))"

section \<open>Picking the documentation workspace\<close>

text \<open>
  The open folders are a parameter (\<open>vscode.workspace.workspaceFolders\<close>, \<open>undefined\<close> being
  the empty list), and so are \<open>vscode.Uri.joinPath\<close> and the file system query \<open>exists\<close>.
  The preferred name is \<open>string | undefined\<close>; the test \<open>if (preferredName)\<close> also fails on
  the empty string. With no configured language \<open>languages[0]\<close> is \<open>undefined\<close>, which
  \<open>joinPath\<close> rejects with a \<open>TypeError\<close> at the first probe.
\<close>

record WorkspaceFolder =
  name :: string
  uri :: string

definition pickDocsWorkspace ::
  "(string \<Rightarrow> string list \<Rightarrow> string) \<Rightarrow> (string \<Rightarrow> bool) \<Rightarrow> WorkspaceFolder list
     \<Rightarrow> string \<Rightarrow> string list \<Rightarrow> string option \<Rightarrow> error + WorkspaceFolder option" where
  "pickDocsWorkspace joinPath exists folders sdir languages preferredName =
     (if length folders = 0 then Inr None
      else (case (case preferredName of
                    None \<Rightarrow> None
                  | Some pn \<Rightarrow> if pn = [] then None else find (\<lambda>f. name f = pn) folders) of
              Some found \<Rightarrow> Inr (Some found)
            | None \<Rightarrow>
                (case arr_at languages 0 of
                   None \<Rightarrow> Inl JoinPathTypeError
                 | Some lang0 \<Rightarrow>
                     (case find (\<lambda>f. exists (joinPath (uri f) [sdir, lang0])) folders of
                        Some f \<Rightarrow> Inr (Some f)
                      | None \<Rightarrow> Inr (arr_at folders 0)))))"

section \<open>Facts about the string and array operations\<close>

lemma toPosix_append: "toPosix (a @ b) = toPosix a @ toPosix b"
  by (simp add: toPosix_def)

lemma toPosix_id: "backslash \<notin> set p \<Longrightarrow> toPosix p = p"
  by (induction p) (auto simp: toPosix_def)

lemma toPosix_Cons_slash: "toPosix (slash # p) = slash # toPosix p"
  by (simp add: toPosix_def)

lemma str_split_not_Nil: "str_split c s \<noteq> []"
  by (induction s) (auto split: list.splits)

lemma str_split_no_sep: "c \<notin> set s \<Longrightarrow> str_split c s = [s]"
  by (induction s) auto

lemma str_split_append_sep:
  "c \<notin> set xs \<Longrightarrow> str_split c (xs @ c # ys) = xs # str_split c ys"
  by (induction xs) auto

lemma str_split_sep_append:
  "str_split c (xs @ c # ys) = str_split c xs @ str_split c ys"
proof (induction xs)
  case Nil
  show ?case by simp
next
  case (Cons x xs)
  show ?case
  proof (cases "x = c")
    case True
    with Cons show ?thesis by simp
  next
    case False
    obtain y ys' where s: "str_split c xs = y # ys'"
      using str_split_not_Nil [of c xs] by (cases "str_split c xs") auto
    with False Cons show ?thesis by simp
  qed
qed

lemma arr_join_Cons: "ys \<noteq> [] \<Longrightarrow> arr_join sep (x # ys) = x @ sep @ arr_join sep ys"
  by (cases ys) auto

lemma arr_join_append:
  "xs \<noteq> [] \<Longrightarrow> ys \<noteq> [] \<Longrightarrow> arr_join sep (xs @ ys) = arr_join sep xs @ sep @ arr_join sep ys"
proof (induction xs)
  case Nil
  then show ?case by simp
next
  case (Cons x xs)
  show ?case
  proof (cases "xs = []")
    case True
    with Cons.prems show ?thesis by (simp add: arr_join_Cons)
  next
    case False
    with Cons show ?thesis by (simp add: arr_join_Cons)
  qed
qed

lemma arr_join_str_split: "arr_join [c] (str_split c s) = s"
proof (induction s)
  case Nil
  show ?case by simp
next
  case (Cons x xs)
  obtain y ys where s: "str_split c xs = y # ys"
    using str_split_not_Nil [of c xs] by (cases "str_split c xs") auto
  show ?case
  proof (cases "x = c")
    case True
    with Cons s show ?thesis by simp
  next
    case False
    with Cons s show ?thesis by (cases ys) auto
  qed
qed

lemma str_split_arr_join:
  "segs \<noteq> [] \<Longrightarrow> \<forall>s \<in> set segs. c \<notin> set s \<Longrightarrow> str_split c (arr_join [c] segs) = segs"
proof (induction segs)
  case Nil
  then show ?case by simp
next
  case (Cons x xs)
  show ?case
  proof (cases "xs = []")
    case True
    with Cons.prems show ?thesis by (simp add: str_split_no_sep)
  next
    case False
    with Cons show ?thesis by (simp add: arr_join_Cons str_split_append_sep)
  qed
qed

lemma arr_lastIndexOf_bounds: "- 1 \<le> arr_lastIndexOf xs x \<and> arr_lastIndexOf xs x < int (length xs)"
  by (induction xs) (auto simp: Let_def)

lemma arr_lastIndexOf_absent: "x \<notin> set xs \<Longrightarrow> arr_lastIndexOf xs x = - 1"
  by (induction xs) (auto simp: Let_def)

lemma arr_lastIndexOf_neg_iff: "arr_lastIndexOf xs x < 0 \<longleftrightarrow> x \<notin> set xs"
  by (induction xs) (auto simp: Let_def)

lemma arr_lastIndexOf_last:
  "x \<notin> set ys \<Longrightarrow> arr_lastIndexOf (pre @ x # ys) x = int (length pre)"
  by (induction pre) (auto simp: Let_def arr_lastIndexOf_absent)

lemma arr_lastIndexOf_decomp:
  "0 \<le> arr_lastIndexOf xs x \<Longrightarrow>
   \<exists>pre ys. xs = pre @ x # ys \<and> x \<notin> set ys \<and> arr_lastIndexOf xs x = int (length pre)"
proof (induction xs)
  case Nil
  then show ?case by simp
next
  case (Cons y xs)
  show ?case
  proof (cases "0 \<le> arr_lastIndexOf xs x")
    case True
    then obtain pre ys where "xs = pre @ x # ys" "x \<notin> set ys" "arr_lastIndexOf xs x = int (length pre)"
      using Cons.IH by blast
    then have "y # xs = (y # pre) @ x # ys \<and> x \<notin> set ys \<and> arr_lastIndexOf (y # xs) x = int (length (y # pre))"
      by (simp add: Let_def)
    then show ?thesis by blast
  next
    case False
    with Cons.prems have yx: "y = x" by (auto simp: Let_def split: if_splits)
    from False have "x \<notin> set xs" using arr_lastIndexOf_neg_iff [of xs x] by simp
    with yx False have "y # xs = [] @ x # xs \<and> x \<notin> set xs
        \<and> arr_lastIndexOf (y # xs) x = int (length ([]::'a list))"
      by (simp add: Let_def)
    then show ?thesis by blast
  qed
qed

lemma str_lastIndexOf_upper:
  "0 \<le> str_lastIndexOf s n \<Longrightarrow> str_lastIndexOf s n + int (length n) \<le> int (length s)"
proof (induction s)
  case Nil
  then show ?case by (auto split: if_splits)
next
  case (Cons c cs)
  show ?case
  proof (cases "0 \<le> str_lastIndexOf cs n")
    case True
    with Cons show ?thesis by (simp add: Let_def)
  next
    case False
    with Cons.prems have "prefix n (c # cs)" by (auto simp: Let_def split: if_splits)
    then have "length n \<le> length (c # cs)" by (rule prefix_length_le)
    with False Cons.prems show ?thesis by (auto simp: Let_def split: if_splits)
  qed
qed

lemma str_lastIndexOf_lower:
  "i \<le> length s \<Longrightarrow> prefix n (drop i s) \<Longrightarrow> int i \<le> str_lastIndexOf s n"
proof (induction s arbitrary: i)
  case Nil
  then show ?case by simp
next
  case (Cons c cs)
  show ?case
  proof (cases i)
    case 0
    with Cons.prems show ?thesis by (auto simp: Let_def)
  next
    case (Suc j)
    with Cons.prems have "int j \<le> str_lastIndexOf cs n" using Cons.IH [of j] by simp
    with Suc show ?thesis by (simp add: Let_def)
  qed
qed

lemma str_lastIndexOf_occurs:
  "0 \<le> str_lastIndexOf s n \<Longrightarrow> prefix n (drop (nat (str_lastIndexOf s n)) s)"
proof (induction s)
  case Nil
  then show ?case by (auto split: if_splits)
next
  case (Cons c cs)
  show ?case
  proof (cases "0 \<le> str_lastIndexOf cs n")
    case True
    with Cons show ?thesis by (simp add: Let_def nat_add_distrib)
  next
    case False
    with Cons.prems show ?thesis by (auto simp: Let_def split: if_splits)
  qed
qed

lemma str_lastIndexOf_suffix:
  "str_lastIndexOf (r @ n) n = int (length r)"
proof -
  have lo: "int (length r) \<le> str_lastIndexOf (r @ n) n"
    by (rule str_lastIndexOf_lower) simp_all
  then have "0 \<le> str_lastIndexOf (r @ n) n" by simp
  from str_lastIndexOf_upper [OF this] lo show ?thesis by simp
qed

section \<open>Facts about resolving and rebuilding\<close>

lemma toPosix_arr_join:
  "\<forall>s \<in> set segs. backslash \<notin> set s \<Longrightarrow> toPosix (arr_join ''/'' segs) = arr_join ''/'' segs"
proof (induction segs)
  case Nil
  show ?case by (simp add: toPosix_def)
next
  case (Cons x xs)
  show ?case
  proof (cases "xs = []")
    case True
    with Cons.prems show ?thesis by (simp add: toPosix_id)
  next
    case False
    with Cons show ?thesis
      by (simp add: arr_join_Cons toPosix_append toPosix_id toPosix_Cons_slash)
  qed
qed

lemma arr_at_append_Cons: "arr_at (pre @ x # y # ys) (int (length pre) + 1) = Some y"
  by (simp add: arr_at_def nth_append nat_add_distrib)

lemma parseDocInfo_form:
  assumes sd: "slash \<notin> set sd" "backslash \<notin> set sd"
    and l: "slash \<notin> set l" "backslash \<notin> set l"
    and segs: "segs \<noteq> []" "\<forall>s \<in> set segs. slash \<notin> set s \<and> backslash \<notin> set s"
    and last: "sd \<notin> set (l # segs)"
    and conf: "l \<in> set langs"
  shows "\<exists>info. parseDocInfo (root @ ''/'' @ sd @ ''/'' @ l @ ''/'' @ arr_join ''/'' segs) langs sd t
           = Some info \<and> lang info = l \<and> relPathWithExt info = arr_join ''/'' segs
           \<and> staticDir info = sd"
proof -
  let ?rel = "arr_join ''/'' segs"
  let ?p = "root @ ''/'' @ sd @ ''/'' @ l @ ''/'' @ ?rel"
  let ?pre = "str_split slash (toPosix root)"
  have rel: "toPosix ?rel = ?rel" using segs by (simp add: toPosix_arr_join)
  have posix: "toPosix ?p = toPosix root @ slash # (sd @ slash # (l @ slash # ?rel))"
    using sd l rel by (simp add: toPosix_append toPosix_id toPosix_Cons_slash)
  have sr: "str_split slash ?rel = segs" using segs str_split_arr_join [of segs slash] by simp
  have "str_split slash (toPosix root @ slash # (sd @ slash # (l @ slash # ?rel)))
          = ?pre @ sd # l # segs"
    using sd l sr by (simp add: str_split_sep_append str_split_no_sep)
  then have parts: "str_split slash (toPosix ?p) = ?pre @ sd # l # segs"
    by (simp only: posix)
  have idx: "arr_lastIndexOf (?pre @ sd # l # segs) sd = int (length ?pre)"
    using last by (intro arr_lastIndexOf_last) simp
  have at: "arr_at (?pre @ sd # l # segs) (int (length ?pre) + 1) = Some l"
    by (rule arr_at_append_Cons)
  have dr: "drop (nat (int (length ?pre) + 2)) (?pre @ sd # l # segs) = segs"
    by (simp add: nat_add_distrib)
  show ?thesis
    unfolding parseDocInfo_def Let_def parts idx at dr
    using conf segs by (simp add: arr_includes_def)
qed

lemma buildTargetFileUri_suffix:
  assumes "toPosix p = r @ needle_of info"
  shows "buildTargetFileUri p tgt info
           = Inr (r @ ''/'' @ staticDir info @ ''/'' @ tgt @ ''/'' @ relPathWithExt info)"
  unfolding buildTargetFileUri_def Let_def assms str_lastIndexOf_suffix
  by (simp add: str_slice0_def)


lemma str_split_set: "s \<in> set (str_split c x) \<Longrightarrow> set s \<subseteq> set x \<and> c \<notin> set s"
proof (induction x arbitrary: s)
  case Nil
  then show ?case by simp
next
  case (Cons a x)
  obtain y ys where sp: "str_split c x = y # ys"
    using str_split_not_Nil [of c x] by (cases "str_split c x") auto
  show ?case
  proof (cases "a = c")
    case True
    with Cons show ?thesis by auto
  next
    case False
    with Cons.prems sp have "s = a # y \<or> s \<in> set ys" by simp
    then show ?thesis
    proof
      assume "s = a # y"
      moreover have "set y \<subseteq> set x \<and> c \<notin> set y" using Cons.IH [of y] sp by simp
      ultimately show ?thesis using False by auto
    next
      assume "s \<in> set ys"
      then have "set s \<subseteq> set x \<and> c \<notin> set s" using Cons.IH [of s] sp by simp
      then show ?thesis by auto
    qed
  qed
qed

lemma toPosix_no_backslash: "backslash \<notin> set (toPosix p)"
  by (induction p) (auto simp: toPosix_def)

lemma parseDocInfo_SomeD:
  assumes "parseDocInfo p langs sd t = Some info"
  shows "\<exists>pre relParts. str_split slash (toPosix p) = pre @ sd # lang info # relParts
           \<and> relParts \<noteq> [] \<and> sd \<notin> set (lang info # relParts) \<and> lang info \<in> set langs
           \<and> relPathWithExt info = arr_join ''/'' relParts \<and> staticDir info = sd"
proof -
  let ?parts = "str_split slash (toPosix p)"
  let ?i = "arr_lastIndexOf ?parts sd"
  from assms have nonneg: "0 \<le> ?i"
    by (auto simp: parseDocInfo_def Let_def split: if_splits)
  then obtain pre ys where dec: "?parts = pre @ sd # ys" "sd \<notin> set ys" "?i = int (length pre)"
    using arr_lastIndexOf_decomp [of ?parts sd] by blast
  from assms nonneg obtain lng where at: "arr_at ?parts (?i + 1) = Some lng"
    by (auto simp: parseDocInfo_def Let_def split: if_splits option.splits)
  then obtain rest where ys: "ys = lng # rest"
    unfolding dec(3) unfolding dec(1)
    by (cases ys) (auto simp: arr_at_def nth_append nat_add_distrib split: if_splits)
  have dr: "drop (nat (?i + 2)) ?parts = rest"
    unfolding dec(3) unfolding dec(1) ys by (simp add: nat_add_distrib)
  from assms nonneg at dr
  have "lng \<in> set langs \<and> rest \<noteq> [] \<and> lang info = lng
        \<and> relPathWithExt info = arr_join ''/'' rest \<and> staticDir info = sd"
    by (auto simp: parseDocInfo_def Let_def arr_includes_def split: if_splits)
  with dec ys show ?thesis by auto
qed

lemma buildTargetFileUri_resolved:
  assumes "parseDocInfo p langs sd t = Some info" "buildTargetFileUri p tgt info = Inr q"
  shows "\<exists>pre relParts. pre \<noteq> [] \<and> str_split slash (toPosix p) = pre @ sd # lang info # relParts
           \<and> relParts \<noteq> [] \<and> sd \<notin> set (lang info # relParts)
           \<and> relPathWithExt info = arr_join ''/'' relParts
           \<and> toPosix p = arr_join ''/'' pre @ needle_of info
           \<and> q = arr_join ''/'' pre @ ''/'' @ sd @ ''/'' @ tgt @ ''/'' @ relPathWithExt info"
proof -
  from parseDocInfo_SomeD [OF assms(1)] obtain pre relParts where
    d: "str_split slash (toPosix p) = pre @ sd # lang info # relParts" "relParts \<noteq> []"
       "sd \<notin> set (lang info # relParts)" "relPathWithExt info = arr_join ''/'' relParts"
       "staticDir info = sd"
    by blast
  have whole: "toPosix p = arr_join ''/'' (pre @ sd # lang info # relParts)"
    using arr_join_str_split [of slash "toPosix p"] d(1) by simp
  have tail: "arr_join ''/'' (sd # lang info # relParts) = sd @ ''/'' @ lang info @ ''/'' @ relPathWithExt info"
    using d(2,4) by (simp add: arr_join_Cons)
  have pre: "pre \<noteq> []"
  proof
    assume "pre = []"
    with whole tail have len: "length (needle_of info) = Suc (length (toPosix p))"
      by (simp add: needle_of_def d(5))
    from assms(2) have nn: "0 \<le> str_lastIndexOf (toPosix p) (needle_of info)"
      by (auto simp: buildTargetFileUri_def Let_def split: if_splits)
    from str_lastIndexOf_upper [OF nn] len nn show False by linarith
  qed
  then have "toPosix p = arr_join ''/'' pre @ ''/'' @ arr_join ''/'' (sd # lang info # relParts)"
    using whole by (simp add: arr_join_append)
  then have suff: "toPosix p = arr_join ''/'' pre @ needle_of info"
    using tail by (simp add: needle_of_def d(5))
  from buildTargetFileUri_suffix [OF suff, of tgt] assms(2)
  have "q = arr_join ''/'' pre @ ''/'' @ sd @ ''/'' @ tgt @ ''/'' @ relPathWithExt info"
    by (simp add: d(5))
  with pre d suff show ?thesis by blast
qed

section \<open>The resolved language is a configured one\<close>

text \<open>
  Claim C9. Whenever \<open>parseDocInfo\<close> returns a \<open>DocInfo\<close>, its \<open>lang\<close> is one of the
  configured languages; and when the segment after the last occurrence of the static
  directory is missing or is not a configured language, the result is \<open>None\<close>: no default
  language is ever substituted.
\<close>

theorem parseDocInfo_lang_configured:
  "(parseDocInfo p langs sd t = Some info \<longrightarrow> lang info \<in> set langs)
   \<and> (\<not> arr_includes langs
          (arr_at (str_split slash (toPosix p))
             (arr_lastIndexOf (str_split slash (toPosix p)) sd + 1))
        \<longrightarrow> parseDocInfo p langs sd t = None)"
proof
  show "parseDocInfo p langs sd t = Some info \<longrightarrow> lang info \<in> set langs"
    using parseDocInfo_SomeD [of p langs sd t info] by blast
next
  show "\<not> arr_includes langs
          (arr_at (str_split slash (toPosix p))
             (arr_lastIndexOf (str_split slash (toPosix p)) sd + 1))
        \<longrightarrow> parseDocInfo p langs sd t = None"
    by (auto simp: parseDocInfo_def Let_def arr_includes_def split: option.splits)
qed

theorem parseDocInfo_lang_configured_witness:
  "parseDocInfo ''/ws/static/en/guide/intro.md'' [''zh_CN'', ''en'', ''ja''] ''static'' True
     = Some \<lparr>lang = ''en'', relPathWithExt = ''guide/intro.md'', relPathNoExt = ''guide/intro'',
             staticDir = ''static''\<rparr>
   \<and> ''en'' \<in> set [''zh_CN'', ''en'', ''ja'']
   \<and> \<not> arr_includes [''zh_CN'', ''en'', ''ja'']
          (arr_at (str_split slash (toPosix ''/ws/static/fr/guide/intro.md''))
             (arr_lastIndexOf (str_split slash (toPosix ''/ws/static/fr/guide/intro.md'')) ''static'' + 1))
   \<and> parseDocInfo ''/ws/static/fr/guide/intro.md'' [''zh_CN'', ''en'', ''ja''] ''static'' True = None"
proof -
  have e: "parseDocInfo ''/ws/static/en/guide/intro.md'' [''zh_CN'', ''en'', ''ja''] ''static'' True
     = Some \<lparr>lang = ''en'', relPathWithExt = ''guide/intro.md'', relPathNoExt = ''guide/intro'',
             staticDir = ''static''\<rparr>"
    by code_simp
  have n: "\<not> arr_includes [''zh_CN'', ''en'', ''ja'']
          (arr_at (str_split slash (toPosix ''/ws/static/fr/guide/intro.md''))
             (arr_lastIndexOf (str_split slash (toPosix ''/ws/static/fr/guide/intro.md'')) ''static'' + 1))"
    by code_simp
  from parseDocInfo_lang_configured [of "''/ws/static/en/guide/intro.md''" "[''zh_CN'', ''en'', ''ja'']" "''static''" True
      "\<lparr>lang = ''en'', relPathWithExt = ''guide/intro.md'', relPathNoExt = ''guide/intro'', staticDir = ''static''\<rparr>"] e
  have a: "''en'' \<in> set [''zh_CN'', ''en'', ''ja'']" by simp
  from parseDocInfo_lang_configured [of "''/ws/static/fr/guide/intro.md''" "[''zh_CN'', ''en'', ''ja'']" "''static''" True] n
  have b: "parseDocInfo ''/ws/static/fr/guide/intro.md'' [''zh_CN'', ''en'', ''ja''] ''static'' True = None"
    by blast
  from e a n b show ?thesis by blast
qed

section \<open>Sibling paths\<close>

subsection \<open>Same language\<close>

text \<open>
  Claim C1, as amended. Take a path \<open>root/<staticDir>/<lang>/<a>/<b>.md\<close> in which
  \<open>staticDir\<close>, \<open>lang\<close>, \<open>a\<close> and \<open>b\<close> are single segments (no slash, no backslash),
  \<open>lang\<close> is configured, and none of \<open>lang\<close>, \<open>a\<close>, \<open>b.md\<close> is itself the name of the
  static directory. Then \<open>parseDocInfo\<close> resolves it, with that language and the relative
  path \<open>a/b.md\<close>, and \<open>buildTargetFileUri\<close> for the same language returns the path in
  forward-slash form: the path itself when it holds no backslash (\<open>toPosix_id\<close>).
\<close>

theorem sibling_same_language_identity:
  assumes "l \<in> set langs"
    and "slash \<notin> set sd" "backslash \<notin> set sd"
    and "slash \<notin> set l" "backslash \<notin> set l"
    and "slash \<notin> set a" "backslash \<notin> set a"
    and "slash \<notin> set b" "backslash \<notin> set b"
    and "sd \<noteq> l" "sd \<noteq> a" "sd \<noteq> b @ ''.md''"
  shows "\<exists>info.
           parseDocInfo (root @ ''/'' @ sd @ ''/'' @ l @ ''/'' @ a @ ''/'' @ b @ ''.md'') langs sd t
             = Some info
           \<and> lang info = l \<and> relPathWithExt info = a @ ''/'' @ b @ ''.md''
           \<and> buildTargetFileUri (root @ ''/'' @ sd @ ''/'' @ l @ ''/'' @ a @ ''/'' @ b @ ''.md'') l info
             = Inr (toPosix (root @ ''/'' @ sd @ ''/'' @ l @ ''/'' @ a @ ''/'' @ b @ ''.md''))"
proof -
  let ?segs = "[a, b @ ''.md'']"
  let ?p = "root @ ''/'' @ sd @ ''/'' @ l @ ''/'' @ arr_join ''/'' ?segs"
  have "\<exists>info. parseDocInfo ?p langs sd t = Some info \<and> lang info = l
          \<and> relPathWithExt info = arr_join ''/'' ?segs \<and> staticDir info = sd"
    using assms by (intro parseDocInfo_form) auto
  then obtain info where i: "parseDocInfo ?p langs sd t = Some info" "lang info = l"
      "relPathWithExt info = arr_join ''/'' ?segs" "staticDir info = sd"
    by blast
  have "toPosix ?p = toPosix root @ needle_of info"
    using assms by (simp add: needle_of_def i toPosix_append toPosix_id toPosix_Cons_slash)
  from buildTargetFileUri_suffix [OF this, of l]
  have "buildTargetFileUri ?p l info = Inr (toPosix ?p)"
    using assms by (simp add: i toPosix_append toPosix_id toPosix_Cons_slash)
  with i show ?thesis by auto
qed

text \<open>The theorem at \<open>/ws/static/en/guide/intro.md\<close>.\<close>

theorem sibling_same_language_identity_witness:
  "''en'' \<in> set [''zh_CN'', ''en'', ''ja'']
   \<and> ''static'' \<noteq> ''en'' \<and> ''static'' \<noteq> ''guide'' \<and> ''static'' \<noteq> ''intro.md''
   \<and> (\<exists>info. parseDocInfo ''/ws/static/en/guide/intro.md'' [''zh_CN'', ''en'', ''ja''] ''static'' True
                 = Some info
              \<and> lang info = ''en'' \<and> relPathWithExt info = ''guide/intro.md''
              \<and> buildTargetFileUri ''/ws/static/en/guide/intro.md'' ''en'' info
                 = Inr ''/ws/static/en/guide/intro.md'')"
  using sibling_same_language_identity
    [of "''en''" "[''zh_CN'', ''en'', ''ja'']" "''static''" "''guide''" "''intro''" "''/ws''" True]
  by (simp add: toPosix_def)

text \<open>
  Without the side conditions the claim fails. The static directory is found by its last
  occurrence, so \<open>/ws/static/en/static/b.md\<close> (where \<open>a\<close> is \<open>static\<close>) does not resolve at
  all. And on a host where the backslash is an ordinary character of a file name, a path
  that holds one comes back with a slash in its place.
\<close>

theorem sibling_same_language_identity_counterexample:
  "parseDocInfo ''/ws/static/en/static/b.md'' [''zh_CN'', ''en'', ''ja''] ''static'' True = None
   \<and> parseDocInfo (''/w'' @ [backslash] @ ''x/static/en/a/b.md'') [''zh_CN'', ''en'', ''ja''] ''static'' True
     = Some \<lparr>lang = ''en'', relPathWithExt = ''a/b.md'', relPathNoExt = ''a/b'', staticDir = ''static''\<rparr>
   \<and> buildTargetFileUri (''/w'' @ [backslash] @ ''x/static/en/a/b.md'') ''en''
       \<lparr>lang = ''en'', relPathWithExt = ''a/b.md'', relPathNoExt = ''a/b'', staticDir = ''static''\<rparr>
     = Inr ''/w/x/static/en/a/b.md''
   \<and> ''/w/x/static/en/a/b.md'' \<noteq> ''/w'' @ [backslash] @ ''x/static/en/a/b.md''"
  by code_simp

subsection \<open>There and back\<close>

text \<open>
  Claim C2, as amended. Let a path resolve to a \<open>DocInfo\<close> (in a language \<open>L1\<close>), let
  \<open>L2\<close> be a configured language that is a single segment and is not the name of the
  static directory, and let the sibling path for \<open>L2\<close> be built (the build throws when
  the static directory is the very first segment of the path). Then the sibling resolves,
  in \<open>L2\<close> and with the same relative path, and building the sibling of that for \<open>L1\<close>
  returns the original path in forward-slash form: the original path itself when it holds
  no backslash.
\<close>

theorem sibling_there_and_back:
  assumes "parseDocInfo p langs sd t = Some info1"
    and "buildTargetFileUri p l2 info1 = Inr q"
    and "l2 \<in> set langs" "slash \<notin> set l2" "backslash \<notin> set l2" "l2 \<noteq> sd"
  shows "\<exists>info2. parseDocInfo q langs sd t = Some info2
           \<and> lang info2 = l2 \<and> relPathWithExt info2 = relPathWithExt info1
           \<and> buildTargetFileUri q (lang info1) info2 = Inr (toPosix p)"
proof -
  from buildTargetFileUri_resolved [OF assms(1,2)] obtain pre relParts where
    d: "pre \<noteq> []" "str_split slash (toPosix p) = pre @ sd # lang info1 # relParts"
       "relParts \<noteq> []" "sd \<notin> set (lang info1 # relParts)"
       "relPathWithExt info1 = arr_join ''/'' relParts"
       "toPosix p = arr_join ''/'' pre @ needle_of info1"
       "q = arr_join ''/'' pre @ ''/'' @ sd @ ''/'' @ l2 @ ''/'' @ relPathWithExt info1"
    by blast
  have sd1: "staticDir info1 = sd" using parseDocInfo_SomeD [OF assms(1)] by blast
  have seg: "set s \<subseteq> set (toPosix p) \<and> slash \<notin> set s"
    if "s \<in> set (pre @ sd # lang info1 # relParts)" for s
    using that str_split_set [of s slash "toPosix p"] d(2) by simp
  have nb: "backslash \<notin> set s \<and> slash \<notin> set s"
    if "s \<in> set (pre @ sd # lang info1 # relParts)" for s
    using seg [OF that] toPosix_no_backslash [of p] by auto
  have rootb: "backslash \<notin> set (arr_join ''/'' pre)"
  proof -
    have "set (arr_join ''/'' pre) \<subseteq> set (toPosix p)" using d(6) by auto
    then show ?thesis using toPosix_no_backslash [of p] by auto
  qed
  let ?root = "arr_join ''/'' pre"
  have "\<exists>info. parseDocInfo (?root @ ''/'' @ sd @ ''/'' @ l2 @ ''/'' @ arr_join ''/'' relParts) langs sd t
           = Some info \<and> lang info = l2 \<and> relPathWithExt info = arr_join ''/'' relParts
           \<and> staticDir info = sd"
    using assms(3-6) d(3,4) nb by (intro parseDocInfo_form) auto
  then obtain info2 where i: "parseDocInfo q langs sd t = Some info2" "lang info2 = l2"
      "relPathWithExt info2 = relPathWithExt info1" "staticDir info2 = sd"
    unfolding d(7) d(5) by blast
  have qb: "backslash \<notin> set q"
  proof -
    have "backslash \<notin> set (relPathWithExt info1)"
      using d(6) toPosix_no_backslash [of p] by (auto simp: needle_of_def)
    then show ?thesis using rootb assms(5) nb [of sd] by (auto simp: d(7))
  qed
  have "toPosix q = ?root @ needle_of info2"
    using toPosix_id [OF qb] by (simp add: d(7) needle_of_def i)
  from buildTargetFileUri_suffix [OF this, of "lang info1"]
  have "buildTargetFileUri q (lang info1) info2 = Inr (toPosix p)"
    by (simp add: i d(6) needle_of_def sd1)
  with i show ?thesis by blast
qed

text \<open>The theorem at \<open>/ws/static/en/guide/intro.md\<close>, from \<open>en\<close> to \<open>ja\<close> and back.\<close>

theorem sibling_there_and_back_witness:
  "parseDocInfo ''/ws/static/en/guide/intro.md'' [''zh_CN'', ''en'', ''ja''] ''static'' True
     = Some \<lparr>lang = ''en'', relPathWithExt = ''guide/intro.md'', relPathNoExt = ''guide/intro'',
             staticDir = ''static''\<rparr>
   \<and> buildTargetFileUri ''/ws/static/en/guide/intro.md'' ''ja''
       \<lparr>lang = ''en'', relPathWithExt = ''guide/intro.md'', relPathNoExt = ''guide/intro'',
        staticDir = ''static''\<rparr>
     = Inr ''/ws/static/ja/guide/intro.md''
   \<and> ''ja'' \<in> set [''zh_CN'', ''en'', ''ja''] \<and> ''ja'' \<noteq> ''static''
   \<and> (\<exists>info2. parseDocInfo ''/ws/static/ja/guide/intro.md'' [''zh_CN'', ''en'', ''ja''] ''static'' True
                  = Some info2
              \<and> lang info2 = ''ja'' \<and> relPathWithExt info2 = ''guide/intro.md''
              \<and> buildTargetFileUri ''/ws/static/ja/guide/intro.md'' ''en'' info2
                  = Inr ''/ws/static/en/guide/intro.md'')"
proof -
  let ?i = "\<lparr>lang = ''en'', relPathWithExt = ''guide/intro.md'', relPathNoExt = ''guide/intro'',
             staticDir = ''static''\<rparr>"
  have h1: "parseDocInfo ''/ws/static/en/guide/intro.md'' [''zh_CN'', ''en'', ''ja''] ''static'' True
     = Some ?i"
    by code_simp
  have h2: "buildTargetFileUri ''/ws/static/en/guide/intro.md'' ''ja'' ?i
     = Inr ''/ws/static/ja/guide/intro.md''"
    by code_simp
  from sibling_there_and_back [OF h1 h2] h1 h2 show ?thesis
    by (simp add: toPosix_def)
qed

text \<open>
  Where the claim as worded fails: a path with a backslash in a directory name comes back
  changed; and when a configured language has the name of the static directory, the
  sibling in that language does not resolve, so there is no way back.
\<close>

theorem sibling_there_and_back_counterexample:
  "parseDocInfo (''/w'' @ [backslash] @ ''x/static/en/a.md'') [''zh_CN'', ''en'', ''ja''] ''static'' True
     = Some \<lparr>lang = ''en'', relPathWithExt = ''a.md'', relPathNoExt = ''a'', staticDir = ''static''\<rparr>
   \<and> buildTargetFileUri (''/w'' @ [backslash] @ ''x/static/en/a.md'') ''ja''
       \<lparr>lang = ''en'', relPathWithExt = ''a.md'', relPathNoExt = ''a'', staticDir = ''static''\<rparr>
     = Inr ''/w/x/static/ja/a.md''
   \<and> parseDocInfo ''/w/x/static/ja/a.md'' [''zh_CN'', ''en'', ''ja''] ''static'' True
     = Some \<lparr>lang = ''ja'', relPathWithExt = ''a.md'', relPathNoExt = ''a'', staticDir = ''static''\<rparr>
   \<and> buildTargetFileUri ''/w/x/static/ja/a.md'' ''en''
       \<lparr>lang = ''ja'', relPathWithExt = ''a.md'', relPathNoExt = ''a'', staticDir = ''static''\<rparr>
     = Inr ''/w/x/static/en/a.md''
   \<and> ''/w/x/static/en/a.md'' \<noteq> ''/w'' @ [backslash] @ ''x/static/en/a.md''
   \<and> parseDocInfo ''/ws/static/en/a.md'' [''en'', ''static''] ''static'' True
     = Some \<lparr>lang = ''en'', relPathWithExt = ''a.md'', relPathNoExt = ''a'', staticDir = ''static''\<rparr>
   \<and> buildTargetFileUri ''/ws/static/en/a.md'' ''static''
       \<lparr>lang = ''en'', relPathWithExt = ''a.md'', relPathNoExt = ''a'', staticDir = ''static''\<rparr>
     = Inr ''/ws/static/static/a.md''
   \<and> parseDocInfo ''/ws/static/static/a.md'' [''en'', ''static''] ''static'' True = None"
  by code_simp

subsection \<open>Only the language segment changes\<close>

text \<open>
  Claim C8, as amended. When a path resolves to a \<open>DocInfo\<close> and the sibling path for a
  target language is built from it, the result differs from the forward-slash form of the
  source path in the language segment only: both are the same root followed by
  \<open>/<staticDir>/<language>/<relPathWithExt>\<close>, with \<open>lang info\<close> in the source and the
  target language in the result. The relative path and its extension are the same string.
\<close>

theorem sibling_differs_in_language_only:
  assumes "parseDocInfo p langs sd t = Some info"
    and "buildTargetFileUri p tgt info = Inr q"
  shows "\<exists>root. toPosix p = root @ ''/'' @ sd @ ''/'' @ lang info @ ''/'' @ relPathWithExt info
           \<and> q = root @ ''/'' @ sd @ ''/'' @ tgt @ ''/'' @ relPathWithExt info"
proof -
  from buildTargetFileUri_resolved [OF assms] obtain pre where
    d: "toPosix p = arr_join ''/'' pre @ needle_of info"
       "q = arr_join ''/'' pre @ ''/'' @ sd @ ''/'' @ tgt @ ''/'' @ relPathWithExt info"
    by blast
  have "staticDir info = sd" using parseDocInfo_SomeD [OF assms(1)] by blast
  with d show ?thesis by (auto simp: needle_of_def)
qed

text \<open>The theorem at \<open>/ws/static/en/guide/intro.md\<close> with target \<open>zh_CN\<close>.\<close>

theorem sibling_differs_in_language_only_witness:
  "parseDocInfo ''/ws/static/en/guide/intro.md'' [''zh_CN'', ''en'', ''ja''] ''static'' True
     = Some \<lparr>lang = ''en'', relPathWithExt = ''guide/intro.md'', relPathNoExt = ''guide/intro'',
             staticDir = ''static''\<rparr>
   \<and> buildTargetFileUri ''/ws/static/en/guide/intro.md'' ''zh_CN''
       \<lparr>lang = ''en'', relPathWithExt = ''guide/intro.md'', relPathNoExt = ''guide/intro'',
        staticDir = ''static''\<rparr>
     = Inr ''/ws/static/zh_CN/guide/intro.md''
   \<and> (\<exists>root. ''/ws/static/en/guide/intro.md'' = root @ ''/static/en/guide/intro.md''
            \<and> ''/ws/static/zh_CN/guide/intro.md'' = root @ ''/static/zh_CN/guide/intro.md'')"
proof -
  let ?i = "\<lparr>lang = ''en'', relPathWithExt = ''guide/intro.md'', relPathNoExt = ''guide/intro'',
             staticDir = ''static''\<rparr>"
  have h1: "parseDocInfo ''/ws/static/en/guide/intro.md'' [''zh_CN'', ''en'', ''ja''] ''static'' True
     = Some ?i"
    by code_simp
  have h2: "buildTargetFileUri ''/ws/static/en/guide/intro.md'' ''zh_CN'' ?i
     = Inr ''/ws/static/zh_CN/guide/intro.md''"
    by code_simp
  from sibling_differs_in_language_only [OF h1 h2] h1 h2 show ?thesis
    by (simp add: toPosix_def)
qed

text \<open>
  Against the source path itself the claim fails when the path holds a backslash: the
  result is not the source path with \<open>en\<close> replaced by \<open>ja\<close>.
\<close>

theorem sibling_differs_in_language_only_counterexample:
  "parseDocInfo (''/w'' @ [backslash] @ ''x/static/en/a.md'') [''zh_CN'', ''en'', ''ja''] ''static'' True
     = Some \<lparr>lang = ''en'', relPathWithExt = ''a.md'', relPathNoExt = ''a'', staticDir = ''static''\<rparr>
   \<and> buildTargetFileUri (''/w'' @ [backslash] @ ''x/static/en/a.md'') ''ja''
       \<lparr>lang = ''en'', relPathWithExt = ''a.md'', relPathNoExt = ''a'', staticDir = ''static''\<rparr>
     = Inr ''/w/x/static/ja/a.md''
   \<and> ''/w/x/static/ja/a.md'' \<noteq> ''/w'' @ [backslash] @ ''x/static/ja/a.md''"
  by code_simp

section \<open>README as the index of a directory\<close>

text \<open>
  What \<open>parseDocInfo\<close> stores as \<open>relPathNoExt\<close>: the relative path without its extension,
  and with a trailing \<open>/README\<close> removed when the option is on. The slash is part of what
  is looked for.
\<close>

lemma parseDocInfo_relPathNoExt:
  assumes "parseDocInfo p langs sd t = Some info"
  shows "relPathNoExt info =
     (let rel = relPathWithExt info;
          noExt = str_slice0 rel (int (length rel) - int (length (extname rel)))
      in if t \<and> suffix ''/README'' noExt then strip_trailing_README noExt else noExt)"
  using assms unfolding parseDocInfo_def Let_def
  by (auto split: if_splits option.splits)

text \<open>
  Claim C4. With the option on, a file whose name without extension is \<open>README\<close> is to
  resolve to the directory that holds it, also when it lies directly under
  \<open><staticDir>/<lang>/\<close>; with the option off the \<open>README\<close> segment stays. The code does so
  for \<open>guide/README.md\<close>, which gives \<open>guide\<close> (and \<open>guide/README\<close> with the option off).
  For \<open>README.md\<close> directly under the language directory it does not: the path without
  extension is \<open>README\<close>, which does not end in \<open>/README\<close>, and \<open>relPathNoExt\<close> stays
  \<open>README\<close> although the option is on.
\<close>

theorem readme_directly_under_language:
  "parseDocInfo ''/ws/static/en/README.md'' [''zh_CN'', ''en'', ''ja''] ''static'' True
     = Some \<lparr>lang = ''en'', relPathWithExt = ''README.md'', relPathNoExt = ''README'',
             staticDir = ''static''\<rparr>
   \<and> parseDocInfo ''/ws/static/en/guide/README.md'' [''zh_CN'', ''en'', ''ja''] ''static'' True
     = Some \<lparr>lang = ''en'', relPathWithExt = ''guide/README.md'', relPathNoExt = ''guide'',
             staticDir = ''static''\<rparr>
   \<and> parseDocInfo ''/ws/static/en/guide/README.md'' [''zh_CN'', ''en'', ''ja''] ''static'' False
     = Some \<lparr>lang = ''en'', relPathWithExt = ''guide/README.md'', relPathNoExt = ''guide/README'',
             staticDir = ''static''\<rparr>"
  by code_simp

section \<open>The URL parser\<close>

text \<open>
  Claim C6. The segments of a URL are the non-empty pieces of its path between slashes.
  \<open>parseUrlToLangAndRel\<close> fails exactly when the constructor rejects the string, or the
  path has fewer than two segments, or the first segment is not a configured language.
  Otherwise it returns the first segment as the language and the remaining segments,
  joined by \<open>/\<close>, as the relative path.
\<close>

theorem parseUrlToLangAndRel_outcomes:
  "(parseUrlToLangAndRel new_URL s langs = None \<longleftrightarrow>
      (case new_URL s of
         None \<Rightarrow> True
       | Some u \<Rightarrow>
           length (filter (\<lambda>x. x \<noteq> []) (str_split slash (url_pathname u))) < 2
           \<or> hd (filter (\<lambda>x. x \<noteq> []) (str_split slash (url_pathname u))) \<notin> set langs))
   \<and> (\<forall>u. new_URL s = Some u
            \<and> 2 \<le> length (filter (\<lambda>x. x \<noteq> []) (str_split slash (url_pathname u)))
            \<and> hd (filter (\<lambda>x. x \<noteq> []) (str_split slash (url_pathname u))) \<in> set langs
          \<longrightarrow> parseUrlToLangAndRel new_URL s langs
                = Some (hd (filter (\<lambda>x. x \<noteq> []) (str_split slash (url_pathname u))),
                        arr_join ''/''
                          (tl (filter (\<lambda>x. x \<noteq> []) (str_split slash (url_pathname u))))))"
  by (auto simp: parseUrlToLangAndRel_def Let_def arr_includes_def arr_at_def hd_conv_nth drop_Suc
      split: option.splits if_splits)

text \<open>
  The theorem on six strings: a document URL; the same with doubled and trailing slashes,
  which are no segments; a language alone, without and with a trailing slash; a language
  that is not configured; and a string that is no URL.
\<close>

theorem parseUrlToLangAndRel_outcomes_witness:
  "parseUrlToLangAndRel URL_plain ''https://docs.m5stack.com/zh_CN/a/b'' [''zh_CN'', ''en'', ''ja'']
     = Some (''zh_CN'', ''a/b'')
   \<and> parseUrlToLangAndRel URL_plain ''https://docs.m5stack.com//zh_CN//a//b/'' [''zh_CN'', ''en'', ''ja'']
     = Some (''zh_CN'', ''a/b'')
   \<and> parseUrlToLangAndRel URL_plain ''https://docs.m5stack.com/zh_CN'' [''zh_CN'', ''en'', ''ja''] = None
   \<and> parseUrlToLangAndRel URL_plain ''https://docs.m5stack.com/zh_CN/'' [''zh_CN'', ''en'', ''ja''] = None
   \<and> parseUrlToLangAndRel URL_plain ''https://docs.m5stack.com/fr/a/b'' [''zh_CN'', ''en'', ''ja''] = None
   \<and> parseUrlToLangAndRel URL_plain ''not a url'' [''zh_CN'', ''en'', ''ja''] = None"
proof -
  let ?L = "[''zh_CN'', ''en'', ''ja'']"
  let ?u = "\<lambda>p. \<lparr>url_scheme = ''https'', url_username = [], url_password = [],
             url_host = Some ''docs.m5stack.com'', url_port = None, url_path = p,
             url_query = None, url_fragment = None\<rparr>"
  let ?segs = "\<lambda>p. filter (\<lambda>x. x \<noteq> []) (str_split slash (url_pathname (?u p)))"
  have u1: "URL_plain ''https://docs.m5stack.com/zh_CN/a/b'' = Some (?u ''/zh_CN/a/b'')"
    by code_simp
  have s1: "?segs ''/zh_CN/a/b'' = [''zh_CN'', ''a'', ''b'']"
    by code_simp
  have u2: "URL_plain ''https://docs.m5stack.com//zh_CN//a//b/'' = Some (?u ''//zh_CN//a//b/'')"
    by code_simp
  have s2: "?segs ''//zh_CN//a//b/'' = [''zh_CN'', ''a'', ''b'']"
    by code_simp
  have u3: "URL_plain ''https://docs.m5stack.com/zh_CN'' = Some (?u ''/zh_CN'')"
    by code_simp
  have s3: "?segs ''/zh_CN'' = [''zh_CN'']"
    by code_simp
  have u4: "URL_plain ''https://docs.m5stack.com/zh_CN/'' = Some (?u ''/zh_CN/'')"
    by code_simp
  have s4: "?segs ''/zh_CN/'' = [''zh_CN'']"
    by code_simp
  have u5: "URL_plain ''https://docs.m5stack.com/fr/a/b'' = Some (?u ''/fr/a/b'')"
    by code_simp
  have s5: "?segs ''/fr/a/b'' = [''fr'', ''a'', ''b'']"
    by code_simp
  have u6: "URL_plain ''not a url'' = None"
    by code_simp
  have "parseUrlToLangAndRel URL_plain ''https://docs.m5stack.com/zh_CN/a/b'' ?L
          = Some (''zh_CN'', ''a/b'')"
    using parseUrlToLangAndRel_outcomes [of URL_plain "''https://docs.m5stack.com/zh_CN/a/b''" ?L] u1
    by (simp add: s1)
  moreover have "parseUrlToLangAndRel URL_plain ''https://docs.m5stack.com//zh_CN//a//b/'' ?L
          = Some (''zh_CN'', ''a/b'')"
    using parseUrlToLangAndRel_outcomes [of URL_plain "''https://docs.m5stack.com//zh_CN//a//b/''" ?L] u2
    by (simp add: s2)
  moreover have "parseUrlToLangAndRel URL_plain ''https://docs.m5stack.com/zh_CN'' ?L = None"
    using parseUrlToLangAndRel_outcomes [of URL_plain "''https://docs.m5stack.com/zh_CN''" ?L] u3
    by (simp add: s3)
  moreover have "parseUrlToLangAndRel URL_plain ''https://docs.m5stack.com/zh_CN/'' ?L = None"
    using parseUrlToLangAndRel_outcomes [of URL_plain "''https://docs.m5stack.com/zh_CN/''" ?L] u4
    by (simp add: s4)
  moreover have "parseUrlToLangAndRel URL_plain ''https://docs.m5stack.com/fr/a/b'' ?L = None"
    using parseUrlToLangAndRel_outcomes [of URL_plain "''https://docs.m5stack.com/fr/a/b''" ?L] u5
    by (simp add: s5)
  moreover have "parseUrlToLangAndRel URL_plain ''not a url'' ?L = None"
    using parseUrlToLangAndRel_outcomes [of URL_plain "''not a url''" ?L] u6
    by simp
  ultimately show ?thesis by blast
qed

subsection \<open>Parsing what was built\<close>














section \<open>The LAN address and the preview base\<close>

lemma find_app: "find P (xs @ ys) = (case find P xs of Some x \<Rightarrow> Some x | None \<Rightarrow> find P ys)"
  by (induction xs) auto

lemma scan_addrs_eq:
  "scan_addrs addrs fb =
     (case find (prefix ''192.168.'')
             (map address (filter (\<lambda>a. family a = ''IPv4'' \<and> \<not> internal a) addrs)) of
        Some ip \<Rightarrow> Inl ip
      | None \<Rightarrow> Inr (fb @ map address (filter (\<lambda>a. family a = ''IPv4'' \<and> \<not> internal a) addrs)))"
  by (induction addrs fb rule: scan_addrs.induct) (auto simp: Let_def split: option.splits)

lemma nonInternalIPv4_Cons:
  "nonInternalIPv4 ((n, addrs) # rest) =
     map address (filter (\<lambda>a. family a = ''IPv4'' \<and> \<not> internal a) addrs) @ nonInternalIPv4 rest"
  by (simp add: nonInternalIPv4_def)

lemma scan_ifs_eq:
  "scan_ifs ifs fb =
     (case find (prefix ''192.168.'') (nonInternalIPv4 ifs) of
        Some ip \<Rightarrow> Some ip
      | None \<Rightarrow> (case fb @ nonInternalIPv4 ifs of [] \<Rightarrow> None | ip # _ \<Rightarrow> Some ip))"
proof (induction ifs fb rule: scan_ifs.induct)
  case (1 fallbacks)
  show ?case by (cases fallbacks) (simp_all add: nonInternalIPv4_def arr_at_def)
next
  case (2 ifname addrs rest fallbacks)
  show ?case
  proof (cases "scan_addrs addrs fallbacks")
    case (Inl ip)
    then show ?thesis
      by (simp add: scan_addrs_eq nonInternalIPv4_Cons find_app split: option.splits)
  next
    case (Inr fb')
    with 2 show ?thesis
      by (auto simp: scan_addrs_eq nonInternalIPv4_Cons find_app split: option.splits)
  qed
qed

text \<open>
  Claim C5, as amended. \<open>getLanIPv4Prefer192\<close> returns the first non-internal IPv4 address
  that starts with \<open>192.168.\<close> when there is one, otherwise the first non-internal IPv4
  address, otherwise nothing. Given a dotted-decimal address and a base whose host is
  \<open>127.0.0.1\<close> or \<open>localhost\<close>, \<open>patchBaseHost\<close> returns the base with that address as its
  host and with scheme, credentials, port, path, query and fragment as they were, trailing
  slashes stripped. Given no address it substitutes nothing: the result is the
  serialisation of the parsed base with trailing slashes stripped, which is the base
  itself when the base is written in that form, as \<open>http://127.0.0.1:3000\<close> is.
\<close>

theorem lan_address_and_substitution:
  "getLanIPv4Prefer192 ifs =
     (case find (prefix ''192.168.'') (nonInternalIPv4 ifs) of
        Some ip \<Rightarrow> Some ip
      | None \<Rightarrow> (case nonInternalIPv4 ifs of [] \<Rightarrow> None | ip # _ \<Rightarrow> Some ip))
   \<and> (new_URL base = Some u \<and> is_dotted_quad ip
        \<and> (url_hostname u = ''127.0.0.1'' \<or> url_hostname u = ''localhost'')
      \<longrightarrow> patchBaseHost new_URL base (Some ip)
            = strip_trailing_slashes
                (url_scheme u @ ''://'' @ url_userinfo u @ ip @ url_port_part u @ url_tail u))
   \<and> (new_URL base = Some u
      \<longrightarrow> patchBaseHost new_URL base None = strip_trailing_slashes (url_toString u))"
proof (intro conjI impI)
  show "getLanIPv4Prefer192 ifs =
     (case find (prefix ''192.168.'') (nonInternalIPv4 ifs) of
        Some ip \<Rightarrow> Some ip
      | None \<Rightarrow> (case nonInternalIPv4 ifs of [] \<Rightarrow> None | ip # _ \<Rightarrow> Some ip))"
    by (simp add: getLanIPv4Prefer192_def scan_ifs_eq split: option.splits)
next
  assume a: "new_URL base = Some u \<and> is_dotted_quad ip
        \<and> (url_hostname u = ''127.0.0.1'' \<or> url_hostname u = ''localhost'')"
  then have "ip \<noteq> []" by (auto simp: is_dotted_quad_def)
  with a show "patchBaseHost new_URL base (Some ip)
            = strip_trailing_slashes
                (url_scheme u @ ''://'' @ url_userinfo u @ ip @ url_port_part u @ url_tail u)"
    by (auto simp: patchBaseHost_def url_set_hostname_def url_toString_def url_userinfo_def
        url_port_part_def url_tail_def)
next
  assume "new_URL base = Some u"
  then show "patchBaseHost new_URL base None = strip_trailing_slashes (url_toString u)"
    by (simp add: patchBaseHost_def)
qed

text \<open>The examples of the specification, with base \<open>http://127.0.0.1:3000\<close>.\<close>

theorem lan_address_and_substitution_witness:
  "getLanIPv4Prefer192
     [(''lo'', [\<lparr>address = ''127.0.0.1'', family = ''IPv4'', internal = True\<rparr>]),
      (''eth0'', [\<lparr>address = ''10.0.0.5'', family = ''IPv4'', internal = False\<rparr>,
                 \<lparr>address = ''fe80::1'', family = ''IPv6'', internal = False\<rparr>]),
      (''wlan0'', [\<lparr>address = ''192.168.1.23'', family = ''IPv4'', internal = False\<rparr>])]
     = Some ''192.168.1.23''
   \<and> map_option url_hostname (URL_plain ''http://127.0.0.1:3000'') = Some ''127.0.0.1''
   \<and> is_dotted_quad ''192.168.1.23''
   \<and> patchBaseHost URL_plain ''http://127.0.0.1:3000'' (Some ''192.168.1.23'')
       = ''http://192.168.1.23:3000''
   \<and> patchBaseHost URL_plain ''http://127.0.0.1:3000'' None = ''http://127.0.0.1:3000''"
proof -
  let ?ifs = "[(''lo'', [\<lparr>address = ''127.0.0.1'', family = ''IPv4'', internal = True\<rparr>]),
      (''eth0'', [\<lparr>address = ''10.0.0.5'', family = ''IPv4'', internal = False\<rparr>,
                 \<lparr>address = ''fe80::1'', family = ''IPv6'', internal = False\<rparr>]),
      (''wlan0'', [\<lparr>address = ''192.168.1.23'', family = ''IPv4'', internal = False\<rparr>])]"
  let ?u = "\<lparr>url_scheme = ''http'', url_username = [], url_password = [],
             url_host = Some ''127.0.0.1'', url_port = Some ''3000'', url_path = ''/'',
             url_query = None, url_fragment = None\<rparr>"
  have c: "nonInternalIPv4 ?ifs = [''10.0.0.5'', ''192.168.1.23'']"
    by code_simp
  have f: "find (prefix ''192.168.'') [''10.0.0.5'', ''192.168.1.23''] = Some ''192.168.1.23''"
    by code_simp
  have u: "URL_plain ''http://127.0.0.1:3000'' = Some ?u"
    by code_simp
  have h: "url_hostname ?u = ''127.0.0.1''"
    by (simp add: url_hostname_def)
  have q: "is_dotted_quad ''192.168.1.23''"
    by code_simp
  have s1: "strip_trailing_slashes
              (url_scheme ?u @ ''://'' @ url_userinfo ?u @ ''192.168.1.23'' @ url_port_part ?u @ url_tail ?u)
            = ''http://192.168.1.23:3000''"
    by code_simp
  have s2: "strip_trailing_slashes (url_toString ?u) = ''http://127.0.0.1:3000''"
    by code_simp
  note t = lan_address_and_substitution
    [of ?ifs URL_plain "''http://127.0.0.1:3000''" ?u "''192.168.1.23''"]
  from t have "getLanIPv4Prefer192 ?ifs = Some ''192.168.1.23''"
    by (simp only: c f option.case)
  moreover from t u h q have "patchBaseHost URL_plain ''http://127.0.0.1:3000'' (Some ''192.168.1.23'')
       = strip_trailing_slashes
           (url_scheme ?u @ ''://'' @ url_userinfo ?u @ ''192.168.1.23'' @ url_port_part ?u @ url_tail ?u)"
    by blast
  then have "patchBaseHost URL_plain ''http://127.0.0.1:3000'' (Some ''192.168.1.23'')
       = ''http://192.168.1.23:3000''"
    by (simp only: s1)
  moreover from t u have "patchBaseHost URL_plain ''http://127.0.0.1:3000'' None
       = strip_trailing_slashes (url_toString ?u)"
    by blast
  then have "patchBaseHost URL_plain ''http://127.0.0.1:3000'' None = ''http://127.0.0.1:3000''"
    by (simp only: s2)
  moreover have "map_option url_hostname (URL_plain ''http://127.0.0.1:3000'') = Some ''127.0.0.1''"
    using u h by simp
  moreover note q
  ultimately show ?thesis by blast
qed

text \<open>
  With no address the base does not always come back as it was written: a trailing slash
  is stripped.
\<close>

theorem lan_address_and_substitution_counterexample:
  "getLanIPv4Prefer192 [(''lo'', [\<lparr>address = ''127.0.0.1'', family = ''IPv4'', internal = True\<rparr>])]
     = None
   \<and> patchBaseHost URL_plain ''http://127.0.0.1:3000/''
       (getLanIPv4Prefer192 [(''lo'', [\<lparr>address = ''127.0.0.1'', family = ''IPv4'', internal = True\<rparr>])])
     = ''http://127.0.0.1:3000''
   \<and> ''http://127.0.0.1:3000'' \<noteq> ''http://127.0.0.1:3000/''"
  by code_simp

text \<open>The other example of the specification: only \<open>10.0.0.5\<close> is there.\<close>

lemma lan_fallback_example:
  "getLanIPv4Prefer192
     [(''lo'', [\<lparr>address = ''127.0.0.1'', family = ''IPv4'', internal = True\<rparr>]),
      (''eth0'', [\<lparr>address = ''10.0.0.5'', family = ''IPv4'', internal = False\<rparr>])]
     = Some ''10.0.0.5''
   \<and> patchBaseHost URL_plain ''http://127.0.0.1:3000'' (Some ''10.0.0.5'') = ''http://10.0.0.5:3000''"
  by code_simp

text \<open>
  Claim C10. When the constructor rejects the base, \<open>patchBaseHost\<close> returns the base as it
  is, whatever the address. It never throws: the model is a total function to strings,
  the only call that can throw being the constructor, whose failure is this case.
\<close>

theorem patchBaseHost_unparseable:
  "new_URL base = None \<Longrightarrow> patchBaseHost new_URL base lan = base"
  by (simp add: patchBaseHost_def)

text \<open>The theorem on a string that is no URL.\<close>

theorem patchBaseHost_unparseable_witness:
  "URL_plain ''not a url'' = None
   \<and> patchBaseHost URL_plain ''not a url'' (Some ''192.168.1.23'') = ''not a url''"
proof -
  have n: "URL_plain ''not a url'' = None" by code_simp
  from patchBaseHost_unparseable [of URL_plain "''not a url''", OF n] n show ?thesis by simp
qed

section \<open>The workspace picker\<close>

text \<open>
  Claim C7. \<open>pickDocsWorkspace\<close> returns no folder exactly when no folder is open.
  Otherwise, in this order: the first folder whose name is the preferred name (a name
  that is given and not empty), whatever the file system holds; else, with a first
  configured language, the first folder for which
  \<open><folder>/<staticDir>/<first language>\<close> exists; else the first folder.
\<close>

theorem pickDocsWorkspace_order:
  "(pickDocsWorkspace joinPath exists folders sd langs pref = Inr None \<longleftrightarrow> folders = [])
   \<and> (pn \<noteq> [] \<and> find (\<lambda>f. name f = pn) folders = Some f
      \<longrightarrow> pickDocsWorkspace joinPath exists folders sd langs (Some pn) = Inr (Some f))
   \<and> ((case pref of None \<Rightarrow> True
        | Some pn' \<Rightarrow> pn' = [] \<or> find (\<lambda>f. name f = pn') folders = None)
       \<and> langs = l0 # ls
       \<and> find (\<lambda>f. exists (joinPath (uri f) [sd, l0])) folders = Some g
      \<longrightarrow> pickDocsWorkspace joinPath exists folders sd langs pref = Inr (Some g))
   \<and> ((case pref of None \<Rightarrow> True
        | Some pn' \<Rightarrow> pn' = [] \<or> find (\<lambda>f. name f = pn') folders = None)
       \<and> langs = l0 # ls
       \<and> find (\<lambda>f. exists (joinPath (uri f) [sd, l0])) folders = None
       \<and> folders = f0 # fs
      \<longrightarrow> pickDocsWorkspace joinPath exists folders sd langs pref = Inr (Some f0))"
proof (intro conjI impI)
  show "pickDocsWorkspace joinPath exists folders sd langs pref = Inr None \<longleftrightarrow> folders = []"
    by (cases folders)
      (auto simp: pickDocsWorkspace_def arr_at_def split: option.splits if_splits)
next
  assume "pn \<noteq> [] \<and> find (\<lambda>f. name f = pn) folders = Some f"
  then show "pickDocsWorkspace joinPath exists folders sd langs (Some pn) = Inr (Some f)"
    by (cases folders) (auto simp: pickDocsWorkspace_def)
next
  assume "(case pref of None \<Rightarrow> True
        | Some pn' \<Rightarrow> pn' = [] \<or> find (\<lambda>f. name f = pn') folders = None)
       \<and> langs = l0 # ls
       \<and> find (\<lambda>f. exists (joinPath (uri f) [sd, l0])) folders = Some g"
  then show "pickDocsWorkspace joinPath exists folders sd langs pref = Inr (Some g)"
    by (cases folders) (auto simp: pickDocsWorkspace_def arr_at_def split: option.splits)
next
  assume "(case pref of None \<Rightarrow> True
        | Some pn' \<Rightarrow> pn' = [] \<or> find (\<lambda>f. name f = pn') folders = None)
       \<and> langs = l0 # ls
       \<and> find (\<lambda>f. exists (joinPath (uri f) [sd, l0])) folders = None
       \<and> folders = f0 # fs"
  then show "pickDocsWorkspace joinPath exists folders sd langs pref = Inr (Some f0)"
    by (auto simp: pickDocsWorkspace_def arr_at_def split: option.splits)
qed

text \<open>
  Two folders, \<open>site\<close> before \<open>nuxt-m5-docs\<close>: the preferred name wins although only
  \<open>site\<close> holds the static directory; with no preferred name the folder that holds it
  wins; with neither, the first folder; and with no folder, none.
\<close>

theorem pickDocsWorkspace_order_witness:
  "pickDocsWorkspace (\<lambda>u fr. arr_join ''/'' (u # fr)) (\<lambda>p. p = ''/w/site/static/zh_CN'')
     [\<lparr>name = ''site'', uri = ''/w/site''\<rparr>, \<lparr>name = ''nuxt-m5-docs'', uri = ''/w/docs''\<rparr>]
     ''static'' [''zh_CN'', ''en'', ''ja''] (Some ''nuxt-m5-docs'')
     = Inr (Some \<lparr>name = ''nuxt-m5-docs'', uri = ''/w/docs''\<rparr>)
   \<and> pickDocsWorkspace (\<lambda>u fr. arr_join ''/'' (u # fr)) (\<lambda>p. p = ''/w/docs/static/zh_CN'')
     [\<lparr>name = ''site'', uri = ''/w/site''\<rparr>, \<lparr>name = ''nuxt-m5-docs'', uri = ''/w/docs''\<rparr>]
     ''static'' [''zh_CN'', ''en'', ''ja''] None
     = Inr (Some \<lparr>name = ''nuxt-m5-docs'', uri = ''/w/docs''\<rparr>)
   \<and> pickDocsWorkspace (\<lambda>u fr. arr_join ''/'' (u # fr)) (\<lambda>p. False)
     [\<lparr>name = ''site'', uri = ''/w/site''\<rparr>, \<lparr>name = ''nuxt-m5-docs'', uri = ''/w/docs''\<rparr>]
     ''static'' [''zh_CN'', ''en'', ''ja''] (Some ''handbook'')
     = Inr (Some \<lparr>name = ''site'', uri = ''/w/site''\<rparr>)
   \<and> pickDocsWorkspace (\<lambda>u fr. arr_join ''/'' (u # fr)) (\<lambda>p. True) []
     ''static'' [''zh_CN'', ''en'', ''ja''] (Some ''nuxt-m5-docs'')
     = Inr None"
proof -
  let ?j = "\<lambda>u fr. arr_join ''/'' (u # fr)"
  let ?A = "\<lparr>name = ''site'', uri = ''/w/site''\<rparr>"
  let ?B = "\<lparr>name = ''nuxt-m5-docs'', uri = ''/w/docs''\<rparr>"
  let ?L = "[''zh_CN'', ''en'', ''ja'']"
  have n1: "''nuxt-m5-docs'' \<noteq> [] \<and> find (\<lambda>f. name f = ''nuxt-m5-docs'') [?A, ?B] = Some ?B"
    by simp
  have 1: "pickDocsWorkspace ?j (\<lambda>p. p = ''/w/site/static/zh_CN'') [?A, ?B] ''static'' ?L
             (Some ''nuxt-m5-docs'') = Inr (Some ?B)"
    using pickDocsWorkspace_order
      [of ?j "\<lambda>p. p = ''/w/site/static/zh_CN''" "[?A, ?B]" "''static''" ?L
          "Some ''nuxt-m5-docs''" "''nuxt-m5-docs''" ?B]
      n1
    by blast
  have p2: "find (\<lambda>f. ?j (uri f) [''static'', ''zh_CN''] = ''/w/docs/static/zh_CN'') [?A, ?B] = Some ?B"
    by simp
  have 2: "pickDocsWorkspace ?j (\<lambda>p. p = ''/w/docs/static/zh_CN'') [?A, ?B] ''static'' ?L None
             = Inr (Some ?B)"
    using pickDocsWorkspace_order
      [of ?j "\<lambda>p. p = ''/w/docs/static/zh_CN''" "[?A, ?B]" "''static''" ?L None _ _
          "''zh_CN''" "[''en'', ''ja'']" ?B]
      p2
    by simp
  have n3: "find (\<lambda>f. name f = ''handbook'') [?A, ?B] = None"
    by simp
  have 3: "pickDocsWorkspace ?j (\<lambda>p. False) [?A, ?B] ''static'' ?L (Some ''handbook'')
             = Inr (Some ?A)"
    using pickDocsWorkspace_order
      [of ?j "\<lambda>p. False" "[?A, ?B]" "''static''" ?L "Some ''handbook''" _ _
          "''zh_CN''" "[''en'', ''ja'']" _ ?A "[?B]"]
      n3
    by simp
  have 4: "pickDocsWorkspace ?j (\<lambda>p. True) [] ''static'' ?L (Some ''nuxt-m5-docs'') = Inr None"
    using pickDocsWorkspace_order
      [of ?j "\<lambda>p. True" "[]" "''static''" ?L "Some ''nuxt-m5-docs''"]
    by simp
  from 1 2 3 4 show ?thesis by blast
qed

end
